theory Spec2Isabelle
  imports Main "HOL-Library.Sublist"
begin

section \<open>LinkStash: data model\<close>

text \<open>
  JavaScript strings are modelled as \<^typ>\<open>string\<close>: a list of code units, of which the
  8-bit ones are representable. A link is the object \<^verbatim>\<open>{ title, url }\<close> that
  \<^verbatim>\<open>background.js\<close> stores and \<^verbatim>\<open>sidebar.js\<close> renders.
\<close>

record link =
  title :: string
  url :: string

text \<open>
  \<^verbatim>\<open>chrome.storage.session\<close>: a key-value store. The extension reads and writes
  one key only, and every value it writes under it is an array of links.
\<close>

type_synonym session_storage = "string \<rightharpoonup> link list"

definition STORAGE_KEY :: string where
  "STORAGE_KEY = ''linkstash_links''"

text \<open>
  The world outside the two scripts, as far as they touch it: the session storage, the
  number of script injections into pages (\<^verbatim>\<open>chrome.scripting.executeScript\<close> calls),
  and the texts handed to \<^verbatim>\<open>navigator.clipboard.writeText\<close>, oldest first.
  Storage calls are taken to succeed; console logging is not part of the model.
\<close>

record world =
  storage :: session_storage
  page_accesses :: nat
  clipboard :: "string list"

section \<open>sidebar.js: formatting\<close>

text \<open>\<^verbatim>\<open>formatLink(link, asMarkdown)\<close>: the template literal is plain concatenation.\<close>

definition formatLink :: "link \<Rightarrow> bool \<Rightarrow> string" where
  "formatLink l asMarkdown =
     (if asMarkdown then ''['' @ title l @ '']('' @ url l @ '')'' else url l)"

text \<open>
  \<^verbatim>\<open>Array.prototype.join(sep)\<close> as ECMAScript specifies it: the result starts
  empty; walking the array from index 0, the separator is appended before every element
  but the first, then the element.
\<close>

fun join_loop :: "string \<Rightarrow> nat \<Rightarrow> string \<Rightarrow> string list \<Rightarrow> string" where
  "join_loop sep k R [] = R"
| "join_loop sep k R (x # xs) =
     join_loop sep (Suc k) ((if k > 0 then R @ sep else R) @ x) xs"

definition join :: "string list \<Rightarrow> string \<Rightarrow> string" where
  "join xs sep = join_loop sep 0 [] xs"

definition newline :: string where
  "newline = [CHR 0x0A]"

definition formatAllPlain :: "link list \<Rightarrow> bool \<Rightarrow> string" where
  "formatAllPlain links asMarkdown =
     join (map (\<lambda>l. formatLink l asMarkdown) links) newline"

definition formatAllBulleted :: "link list \<Rightarrow> bool \<Rightarrow> string" where
  "formatAllBulleted links asMarkdown =
     join (map (\<lambda>l. ''- '' @ formatLink l asMarkdown) links) newline"

section \<open>Storage helpers (both scripts)\<close>

text \<open>
  \<^verbatim>\<open>getStoredLinks\<close> of \<^verbatim>\<open>background.js\<close>:
  \<^verbatim>\<open>result[STORAGE_KEY] || []\<close>. A missing key reads as \<^verbatim>\<open>undefined\<close>, which
  is falsy; an array, empty or not, is truthy and is returned as it is.
\<close>

definition getStoredLinks :: "session_storage \<Rightarrow> link list" where
  "getStoredLinks st = (case st STORAGE_KEY of None \<Rightarrow> [] | Some links \<Rightarrow> links)"

text \<open>The copy of the same function in \<^verbatim>\<open>sidebar.js\<close>.\<close>

definition getStoredLinks_sidebar :: "session_storage \<Rightarrow> link list" where
  "getStoredLinks_sidebar st = (case st STORAGE_KEY of None \<Rightarrow> [] | Some links \<Rightarrow> links)"

text \<open>\<^verbatim>\<open>isDuplicate(links, url)\<close>: \<^verbatim>\<open>links.some(link => link.url === url)\<close>.\<close>

definition isDuplicate :: "link list \<Rightarrow> string \<Rightarrow> bool" where
  "isDuplicate links u = list_ex (\<lambda>l. url l = u) links"

text \<open>
  \<^verbatim>\<open>saveLink(linkData)\<close>: on a duplicate it returns before any write; otherwise it
  pushes a fresh \<^verbatim>\<open>{ title, url }\<close> object and writes the whole array back.
\<close>

definition saveLink :: "link \<Rightarrow> world \<Rightarrow> world" where
  "saveLink linkData w =
     (let links = getStoredLinks (storage w) in
      if isDuplicate links (url linkData) then w
      else w\<lparr>storage := (storage w)(STORAGE_KEY \<mapsto>
             links @ [\<lparr>title = title linkData, url = url linkData\<rparr>])\<rparr>)"

text \<open>
  \<^verbatim>\<open>Array.prototype.splice(start, 1)\<close> for an integer \<^verbatim>\<open>start\<close>, as ECMAScript
  specifies it: a negative start counts from the end and is clamped at 0, a start beyond
  the end is clamped at the length, and the number of deleted elements is 1 clamped to what
  is left after the start.
\<close>

definition splice1 :: "'a list \<Rightarrow> int \<Rightarrow> 'a list" where
  "splice1 xs start =
     (let len = int (length xs);
          actualStart = (if start < 0 then max (len + start) 0 else min start len);
          actualDeleteCount = min (max 1 0) (len - actualStart)
      in take (nat actualStart) xs @ drop (nat (actualStart + actualDeleteCount)) xs)"

text \<open>
  \<^verbatim>\<open>deleteLink(index)\<close> of \<^verbatim>\<open>sidebar.js\<close>: splice, then write the array back
  (also when nothing was removed).
\<close>

definition deleteLink :: "int \<Rightarrow> world \<Rightarrow> world" where
  "deleteLink index w =
     (let links = getStoredLinks_sidebar (storage w) in
      w\<lparr>storage := (storage w)(STORAGE_KEY \<mapsto> splice1 links index)\<rparr>)"

text \<open>
  The bulk copy buttons: each reads the list and copies only when it is not empty.
  The argument is the state of the global Markdown checkbox.
\<close>

definition copyToClipboard :: "string \<Rightarrow> world \<Rightarrow> world" where
  "copyToClipboard text w = w\<lparr>clipboard := clipboard w @ [text]\<rparr>"

definition copyPlainBtn_click :: "bool \<Rightarrow> world \<Rightarrow> world" where
  "copyPlainBtn_click checked w =
     (let links = getStoredLinks_sidebar (storage w) in
      if length links > 0 then copyToClipboard (formatAllPlain links checked) w else w)"

definition copyBulletedBtn_click :: "bool \<Rightarrow> world \<Rightarrow> world" where
  "copyBulletedBtn_click checked w =
     (let links = getStoredLinks_sidebar (storage w) in
      if length links > 0 then copyToClipboard (formatAllBulleted links checked) w else w)"

section \<open>background.js: the page seen by the injected function\<close>

text \<open>
  An \<^verbatim>\<open>a\<close> element of the document: its raw \<^verbatim>\<open>href\<close> attribute (absent or
  as written in the markup), its \<^verbatim>\<open>href\<close> property (the attribute resolved against
  the document's base URL; the empty string when the attribute is absent), its
  \<^verbatim>\<open>textContent\<close>, and whether it matches \<^verbatim>\<open>:hover\<close>.
\<close>

record anchor =
  href_attr :: "string option"
  href :: string
  textContent :: string
  hover :: bool

text \<open>
  The document state the function reads: the anchors in document order and the text of
  the window's selection (\<open>None\<close> when \<^verbatim>\<open>window.getSelection()\<close> is null).
\<close>

record page =
  anchors :: "anchor list"
  selection :: "string option"

text \<open>What \<^verbatim>\<open>new URL(s)\<close> is read for: its protocol and its hostname.\<close>

record parsed_url =
  protocol :: string
  hostname :: string

datatype js_error = TypeError | SyntaxError

text \<open>
  The browser's own algorithms, which are not code of the extension, are parameters:
  \<^item> \<open>URL_new s\<close> is \<^verbatim>\<open>new URL(s)\<close>, \<open>None\<close> when it throws;
  \<^item> \<open>css_query v as\<close> is what the selector engine answers on
    \<^verbatim>\<open>a[href="v"]\<close> over the anchors \<open>as\<close> when \<open>v\<close> holds a character that
    CSS string syntax treats specially (see \<open>css_plain\<close>): the matched anchors, or the
    SyntaxError of an invalid selector.
\<close>

record browser =
  URL_new :: "string \<Rightarrow> parsed_url option"
  css_query :: "string \<Rightarrow> anchor list \<Rightarrow> js_error + anchor list"

text \<open>
  \<^verbatim>\<open>String.prototype.trim\<close> removes white space and line terminators from both
  ends; these are the ones among the 8-bit code units (TAB, LF, VT, FF, CR, SP, NBSP).
\<close>

definition is_ws :: "char \<Rightarrow> bool" where
  "is_ws c = (c \<in> set [CHR 0x09, CHR 0x0A, CHR 0x0B, CHR 0x0C, CHR 0x0D, CHR 0x20, CHR 0xA0])"

definition trim :: "string \<Rightarrow> string" where
  "trim s = rev (dropWhile is_ws (rev (dropWhile is_ws s)))"

text \<open>
  Truthiness of an optional string (\<^verbatim>\<open>if (x?.field)\<close>): defined and not empty.
\<close>

definition truthy :: "string option \<Rightarrow> string option" where
  "truthy x = (case x of None \<Rightarrow> None | Some s \<Rightarrow> if s = [] then None else Some s)"

text \<open>\<^verbatim>\<open>hostname.replace(/^www\./, "")\<close>\<close>

definition strip_www :: "string \<Rightarrow> string" where
  "strip_www h = (if take 4 h = ''www.'' then drop 4 h else h)"

definition getDomain :: "browser \<Rightarrow> string \<Rightarrow> string" where
  "getDomain B u =
     (case URL_new B u of
        Some p \<Rightarrow> strip_www (hostname p)
      | None \<Rightarrow> ''Link'')"

text \<open>
  \<^verbatim>\<open>makeResult(title, url)\<close>: \<^verbatim>\<open>title?.trim() || getDomain(url)\<close>; the title
  is \<open>None\<close> for \<^verbatim>\<open>null\<close>.
\<close>

definition makeResult :: "browser \<Rightarrow> string option \<Rightarrow> string \<Rightarrow> link" where
  "makeResult B t u =
     \<lparr>title = (case truthy (map_option trim t) of
                 Some cleanTitle \<Rightarrow> cleanTitle
               | None \<Rightarrow> getDomain B u),
      url = u\<rparr>"

text \<open>
  \<^verbatim>\<open>document.querySelectorAll(`a[href="${v}"]`)\<close>. When \<open>v\<close> has no quote,
  backslash, line break or NUL, the selector text is the attribute selector with the CSS
  string \<open>v\<close>: it matches the anchors whose raw \<^verbatim>\<open>href\<close> attribute is exactly
  \<open>v\<close>, in document order. Otherwise the selector engine decides.
\<close>

definition css_plain :: "string \<Rightarrow> bool" where
  "css_plain v =
     (\<not> list_ex (\<lambda>c. c \<in> set [CHR 0x22, CHR 0x5C, CHR 0x0A, CHR 0x0D, CHR 0x0C, CHR 0x00]) v)"

definition querySelectorAll_href :: "browser \<Rightarrow> page \<Rightarrow> string \<Rightarrow> js_error + anchor list" where
  "querySelectorAll_href B pg v =
     (if css_plain v then Inr (filter (\<lambda>a. href_attr a = Some v) (anchors pg))
      else css_query B v (anchors pg))"

text \<open>The loop of path 1: the trimmed text of the first anchor that has any.\<close>

fun first_text :: "anchor list \<Rightarrow> string option" where
  "first_text [] = None"
| "first_text (a # as) =
     (let text = trim (textContent a) in
      if text \<noteq> [] then Some text else first_text as)"

text \<open>
  The result of the injected function: an exception, \<^verbatim>\<open>null\<close> or a link.
\<close>

type_synonym extraction = "js_error + link option"

definition path_link :: "browser \<Rightarrow> page \<Rightarrow> string \<Rightarrow> extraction" where
  "path_link B pg v =
     (case querySelectorAll_href B pg v of
        Inl e \<Rightarrow> Inl e
      | Inr links \<Rightarrow>
          (case first_text links of
             Some text \<Rightarrow> Inr (Some (makeResult B (Some text) v))
           | None \<Rightarrow> Inr (Some (makeResult B None v))))"

text \<open>
  The \<^verbatim>\<open>try\<close> block that paths 2 and 3 both apply to a trimmed text: a link when
  the text parses with protocol http or https, \<^verbatim>\<open>null\<close> when parsing throws.
  With any other protocol the block ends without returning: \<open>None\<close> here.
\<close>

definition try_url_text :: "browser \<Rightarrow> string \<Rightarrow> extraction option" where
  "try_url_text B text =
     (case URL_new B text of
        None \<Rightarrow> Some (Inr None)
      | Some p \<Rightarrow>
          if protocol p = ''http:'' \<or> protocol p = ''https:''
          then Some (Inr (Some (makeResult B None text)))
          else None)"

text \<open>
  Path 3, entered when \<^verbatim>\<open>info\<close> is null: the first anchor matching
  \<^verbatim>\<open>a:hover\<close>, when its \<^verbatim>\<open>href\<close> property is not empty; else the selection.
\<close>

definition path_shortcut :: "browser \<Rightarrow> page \<Rightarrow> extraction option" where
  "path_shortcut B pg =
     (case (case find hover (anchors pg) of
              None \<Rightarrow> None
            | Some hovered \<Rightarrow> if href hovered \<noteq> [] then Some hovered else None) of
        Some hovered \<Rightarrow>
          Some (Inr (Some (makeResult B (Some (trim (textContent hovered))) (href hovered))))
      | None \<Rightarrow>
          (case truthy (map_option trim (selection pg)) of
             Some sel \<Rightarrow> try_url_text B sel
           | None \<Rightarrow> None))"

text \<open>
  The context-menu click data, as far as it is read; \<^verbatim>\<open>info\<close> is \<open>None\<close> when
  the keyboard shortcut triggered the capture.
\<close>

record info =
  linkUrl :: "string option"
  selectionText :: "string option"

definition findLinkOnPage :: "browser \<Rightarrow> page \<Rightarrow> info option \<Rightarrow> extraction" where
  "findLinkOnPage B pg i =
     (case truthy (Option.bind i linkUrl) of
        Some v \<Rightarrow> path_link B pg v
      | None \<Rightarrow>
          (case (case truthy (Option.bind i selectionText) of
                   Some s \<Rightarrow> try_url_text B (trim s)
                 | None \<Rightarrow> None) of
             Some r \<Rightarrow> r
           | None \<Rightarrow>
               (case (if i = None then path_shortcut B pg else None) of
                  Some r \<Rightarrow> r
                | None \<Rightarrow> Inr None)))"

section \<open>background.js: the capture coordinator\<close>

text \<open>
  A tab: its \<^verbatim>\<open>url\<close> (undefined when the extension may not see it), whether a
  script can be injected into it, and its document.
\<close>

record tab =
  tab_url :: "string option"
  scriptable :: bool
  document :: page

text \<open>\<^verbatim>\<open>tab.url.match(/^https?:\/\//)\<close>\<close>

definition matches_http :: "string \<Rightarrow> bool" where
  "matches_http u = (take 7 u = ''http://'' \<or> take 8 u = ''https://'')"

text \<open>
  \<^verbatim>\<open>handleLinkCapture(tab, info)\<close>. Both listeners may be called without a tab;
  reading \<^verbatim>\<open>tab.url\<close> then throws outside the \<^verbatim>\<open>try\<close>. Inside it, a failed
  injection and an exception of the injected function both end the capture with nothing
  saved.
\<close>

definition handleLinkCapture ::
    "browser \<Rightarrow> tab option \<Rightarrow> info option \<Rightarrow> world \<Rightarrow> js_error + world" where
  "handleLinkCapture B t i w =
     (case t of
        None \<Rightarrow> Inl TypeError
      | Some tb \<Rightarrow>
          (case truthy (tab_url tb) of
             None \<Rightarrow> Inr w
           | Some u \<Rightarrow>
               if \<not> matches_http u then Inr w
               else
                 let w1 = w\<lparr>page_accesses := Suc (page_accesses w)\<rparr> in
                 if \<not> scriptable tb then Inr w1
                 else
                   (case findLinkOnPage B (document tb) i of
                      Inl e \<Rightarrow> Inr w1
                    | Inr None \<Rightarrow> Inr w1
                    | Inr (Some linkData) \<Rightarrow>
                        if url linkData \<noteq> [] then Inr (saveLink linkData w1)
                        else Inr w1)))"

text \<open>
  A sequence of captures, each on the tab as it is at that moment. A capture that throws
  has written nothing.
\<close>

type_synonym capture = "tab option \<times> info option"

definition capture_step :: "browser \<Rightarrow> world \<Rightarrow> capture \<Rightarrow> world" where
  "capture_step B w c =
     (case handleLinkCapture B (fst c) (snd c) w of Inl e \<Rightarrow> w | Inr w' \<Rightarrow> w')"

definition run_captures :: "browser \<Rightarrow> capture list \<Rightarrow> world \<Rightarrow> world" where
  "run_captures B cs w = foldl (capture_step B) w cs"

text \<open>The world at the start of a browser session: nothing stored.\<close>

definition session_start :: world where
  "session_start = \<lparr>storage = Map.empty, page_accesses = 0, clipboard = []\<rparr>"

section \<open>A browser for the examples\<close>

text \<open>
  The examples below run the code on concrete pages. They need the answers of
  \<^verbatim>\<open>new URL\<close> on the handful of strings they use, which this table records (protocol
  and hostname as the URL standard gives them); any other string the examples parse
  (\<^verbatim>\<open>"hello world"\<close>, the empty string) is not an absolute URL.
\<close>

definition example_URL :: "string \<Rightarrow> parsed_url option" where
  "example_URL s =
     (if s = ''https://www.example.com/page''
        then Some \<lparr>protocol = ''https:'', hostname = ''www.example.com''\<rparr>
      else if s = ''https://example.com/page''
        then Some \<lparr>protocol = ''https:'', hostname = ''example.com''\<rparr>
      else if s = ''https://x.com''
        then Some \<lparr>protocol = ''https:'', hostname = ''x.com''\<rparr>
      else if s = ''ftp://files.example.com/a.txt''
        then Some \<lparr>protocol = ''ftp:'', hostname = ''files.example.com''\<rparr>
      else if s = ''mailto:ann@example.com''
        then Some \<lparr>protocol = ''mailto:'', hostname = []\<rparr>
      else None)"

text \<open>
  No example queries a selector whose value needs escaping, except
  \<^verbatim>\<open>a[href="javascript:alert("x")"]\<close>, which is not a valid selector.
\<close>

definition example_browser :: browser where
  "example_browser = \<lparr>URL_new = example_URL, css_query = (\<lambda>v as. Inl SyntaxError)\<rparr>"

section \<open>Specification-side notions\<close>

text \<open>
  The formatter's contract in the specification's words: the lines, in order, with a
  single newline between consecutive lines (none before the first, none after the last).
\<close>

fun lines_joined :: "string list \<Rightarrow> string" where
  "lines_joined [] = []"
| "lines_joined [x] = x"
| "lines_joined (x # y # ys) = x @ newline @ lines_joined (y # ys)"

section \<open>Example states\<close>

text \<open>A session in which two links have been captured.\<close>

definition two_links :: world where
  "two_links =
     \<lparr>storage = [STORAGE_KEY \<mapsto>
        [\<lparr>title = ''A'', url = ''https://x.com''\<rparr>, \<lparr>title = ''B'', url = ''https://y.com''\<rparr>]],
      page_accesses = 0, clipboard = []\<rparr>"

section \<open>Capture contexts and notions used in the statements\<close>

text \<open>
  The three ways a capture is triggered, as the listeners build the \<^verbatim>\<open>info\<close>
  argument: the context menu on a link, the context menu on selected text, and the
  keyboard shortcut (which passes \<^verbatim>\<open>null\<close>).
\<close>

definition LinkClick :: "string \<Rightarrow> info option" where
  "LinkClick v = Some \<lparr>linkUrl = Some v, selectionText = None\<rparr>"

definition SelectionClick :: "string \<Rightarrow> info option" where
  "SelectionClick s = Some \<lparr>linkUrl = None, selectionText = Some s\<rparr>"

definition ShortcutTrigger :: "info option" where
  "ShortcutTrigger = None"

text \<open>A text parses as an absolute URL whose protocol is http or https.\<close>

definition http_url :: "browser \<Rightarrow> string \<Rightarrow> bool" where
  "http_url B x =
     (case URL_new B x of
        None \<Rightarrow> False
      | Some p \<Rightarrow> protocol p = ''http:'' \<or> protocol p = ''https:'')"

text \<open>
  The url a capture takes from an anchor, if it takes one: the clicked link's url when the
  click data carries a non-empty one, and on the shortcut the \<^verbatim>\<open>href\<close> of the
  first anchor under the pointer, when that is not empty. A capture for which this is
  \<open>None\<close> can only take its url from a text selection.
\<close>

definition hovered_href :: "page \<Rightarrow> string option" where
  "hovered_href pg =
     (case find hover (anchors pg) of None \<Rightarrow> None | Some a \<Rightarrow> truthy (Some (href a)))"

definition anchor_url :: "page \<Rightarrow> info option \<Rightarrow> string option" where
  "anchor_url pg i =
     (case truthy (Option.bind i linkUrl) of
        Some v \<Rightarrow> Some v
      | None \<Rightarrow> if i = None then hovered_href pg else None)"

definition capture_anchor_url :: "capture \<Rightarrow> string option" where
  "capture_anchor_url c =
     (case fst c of None \<Rightarrow> None | Some tb \<Rightarrow> anchor_url (document tb) (snd c))"

text \<open>
  The link a capture hands to \<open>saveLink\<close>, if any: the tab is there, its url passes the
  scheme test, the script can be injected, and the injected function returns a link whose
  url is not empty.
\<close>

definition capture_result :: "browser \<Rightarrow> capture \<Rightarrow> link option" where
  "capture_result B c =
     (case fst c of
        None \<Rightarrow> None
      | Some tb \<Rightarrow>
          (case truthy (tab_url tb) of
             None \<Rightarrow> None
           | Some u \<Rightarrow>
               if matches_http u \<and> scriptable tb then
                 (case findLinkOnPage B (document tb) (snd c) of
                    Inl e \<Rightarrow> None
                  | Inr None \<Rightarrow> None
                  | Inr (Some l) \<Rightarrow> if url l \<noteq> [] then Some l else None)
               else None))"

text \<open>
  A page at \<^verbatim>\<open>https://example.com/\<close> whose only anchor is
  \<^verbatim>\<open><a href="/page">Hello</a>\<close>.
\<close>

definition relative_page :: page where
  "relative_page =
     \<lparr>anchors = [\<lparr>href_attr = Some ''/page'', href = ''https://example.com/page'',
                  textContent = ''Hello'', hover = False\<rparr>],
      selection = None\<rparr>"

text \<open>
  A tab at \<^verbatim>\<open>https://example.com/page\<close> whose only anchor is
  \<^verbatim>\<open><a href="mailto:ann@example.com">Write to Ann</a>\<close>, under the pointer.
\<close>

definition mail_page :: page where
  "mail_page =
     \<lparr>anchors = [\<lparr>href_attr = Some ''mailto:ann@example.com'', href = ''mailto:ann@example.com'',
                  textContent = ''Write to Ann'', hover = True\<rparr>],
      selection = None\<rparr>"

definition mail_tab :: tab where
  "mail_tab = \<lparr>tab_url = Some ''https://example.com/page'', scriptable = True, document = mail_page\<rparr>"

text \<open>The browser's extensions page, which has no anchors the extension could read.\<close>

definition extensions_tab :: tab where
  "extensions_tab =
     \<lparr>tab_url = Some ''chrome://extensions'', scriptable = False,
      document = \<lparr>anchors = [], selection = None\<rparr>\<rparr>"

text \<open>A web page without anchors, on which the user has selected a text.\<close>

definition selection_tab :: "string \<Rightarrow> tab" where
  "selection_tab s =
     \<lparr>tab_url = Some ''https://example.com/page'', scriptable = True,
      document = \<lparr>anchors = [], selection = Some s\<rparr>\<rparr>"

section \<open>Properties: formatter\<close>

lemma join_loop_Suc: "join_loop sep (Suc k) R xs = R @ concat (map (\<lambda>x. sep @ x) xs)"
  by (induction xs arbitrary: k R) auto

lemma lines_joined_concat:
  "lines_joined (x # xs) = x @ concat (map (\<lambda>y. newline @ y) xs)"
  by (induction xs arbitrary: x) auto

lemma join_newline: "join xs newline = lines_joined xs"
proof (cases xs)
  case Nil
  then show ?thesis by (simp add: join_def)
next
  case (Cons x ys)
  then show ?thesis
    by (simp add: join_def join_loop_Suc lines_joined_concat)
qed

text \<open>
  Claim C7. \<open>formatLink\<close> with Markdown on is the title in square brackets followed by
  the url in parentheses, title and url verbatim (nothing is escaped); with Markdown off it
  is the url. \<open>formatAllPlain\<close> is the links' \<open>formatLink\<close> outputs in list order with
  a single newline between them, and \<open>formatAllBulleted\<close> is the same with
  \<^verbatim>\<open>"- "\<close> in front of every line.
\<close>

theorem format_links:
  "formatLink l True = ''['' @ title l @ '']('' @ url l @ '')''
   \<and> formatLink l False = url l
   \<and> formatAllPlain links m = lines_joined (map (\<lambda>l. formatLink l m) links)
   \<and> formatAllBulleted links m =
       lines_joined (map (\<lambda>line. ''- '' @ line) (map (\<lambda>l. formatLink l m) links))"
  by (simp add: formatLink_def formatAllPlain_def formatAllBulleted_def join_newline comp_def)

theorem format_links_witness:
  "formatLink \<lparr>title = ''A'', url = ''https://x.com''\<rparr> True = ''[A](https://x.com)''
   \<and> formatLink \<lparr>title = ''A'', url = ''https://x.com''\<rparr> False = ''https://x.com''
   \<and> formatAllBulleted [\<lparr>title = ''A'', url = ''https://x.com''\<rparr>,
         \<lparr>title = ''B'', url = ''https://y.com''\<rparr>] False
       = ''- https://x.com'' @ [CHR 0x0A] @ ''- https://y.com''
   \<and> formatAllPlain [\<lparr>title = ''A*_'', url = ''https://x.com''\<rparr>,
         \<lparr>title = ''B'', url = ''https://y.com''\<rparr>] True
       = ''[A*_](https://x.com)'' @ [CHR 0x0A] @ ''[B](https://y.com)''"
  using format_links [of "\<lparr>title = ''A'', url = ''https://x.com''\<rparr>"
      "[\<lparr>title = ''A'', url = ''https://x.com''\<rparr>, \<lparr>title = ''B'', url = ''https://y.com''\<rparr>]" False]
    format_links [of "\<lparr>title = ''A'', url = ''https://x.com''\<rparr>"
      "[\<lparr>title = ''A*_'', url = ''https://x.com''\<rparr>, \<lparr>title = ''B'', url = ''https://y.com''\<rparr>]" True]
  by (simp add: newline_def formatLink_def)

text \<open>
  Claim C9. On the empty list both bulk formatters return the empty string, whatever the
  Markdown flag. The copy buttons never get there: each copies exactly when the stored
  list is not empty.
\<close>

theorem format_empty:
  "formatAllPlain [] m = [] \<and> formatAllBulleted [] m = []
   \<and> clipboard (copyPlainBtn_click m w) =
       (if getStoredLinks_sidebar (storage w) = [] then clipboard w
        else clipboard w @ [formatAllPlain (getStoredLinks_sidebar (storage w)) m])
   \<and> clipboard (copyBulletedBtn_click m w) =
       (if getStoredLinks_sidebar (storage w) = [] then clipboard w
        else clipboard w @ [formatAllBulleted (getStoredLinks_sidebar (storage w)) m])"
  by (simp add: formatAllPlain_def formatAllBulleted_def join_def
      copyPlainBtn_click_def copyBulletedBtn_click_def copyToClipboard_def Let_def)

theorem format_empty_witness:
  "formatAllPlain [] True = [] \<and> formatAllBulleted [] True = []
   \<and> clipboard (copyPlainBtn_click True session_start) = []
   \<and> clipboard (copyBulletedBtn_click True session_start) = []"
  using format_empty [of True session_start]
  by (simp add: session_start_def getStoredLinks_sidebar_def)

section \<open>Properties: store\<close>

text \<open>
  Claim C10. When the session storage holds nothing under the key, \<open>getStoredLinks\<close>
  (in either script) returns the empty list, and its callers work on that list: a save
  stores the one link, a delete stores the empty list, and the copy buttons copy nothing.
\<close>

theorem getStoredLinks_missing_key:
  assumes "storage w STORAGE_KEY = None"
  shows "getStoredLinks (storage w) = [] \<and> getStoredLinks_sidebar (storage w) = []
         \<and> getStoredLinks (storage (saveLink l w)) = [l]
         \<and> getStoredLinks_sidebar (storage (deleteLink i w)) = []
         \<and> clipboard (copyPlainBtn_click m w) = clipboard w
         \<and> clipboard (copyBulletedBtn_click m w) = clipboard w"
proof -
  have e: "getStoredLinks (storage w) = []" "getStoredLinks_sidebar (storage w) = []"
    using assms by (simp_all add: getStoredLinks_def getStoredLinks_sidebar_def)
  have s: "getStoredLinks (storage (saveLink l w)) = [l]"
    using e by (simp add: saveLink_def isDuplicate_def getStoredLinks_def)
  have d: "getStoredLinks_sidebar (storage (deleteLink i w)) = []"
    using e by (simp add: deleteLink_def splice1_def getStoredLinks_sidebar_def)
  have c: "clipboard (copyPlainBtn_click m w) = clipboard w"
    "clipboard (copyBulletedBtn_click m w) = clipboard w"
    using e by (simp_all add: copyPlainBtn_click_def copyBulletedBtn_click_def)
  from e s d c show ?thesis by simp
qed

theorem getStoredLinks_missing_key_witness:
  "storage session_start STORAGE_KEY = None
   \<and> getStoredLinks (storage session_start) = []
   \<and> getStoredLinks_sidebar (storage session_start) = []
   \<and> getStoredLinks (storage (saveLink \<lparr>title = ''A'', url = ''https://x.com''\<rparr> session_start))
       = [\<lparr>title = ''A'', url = ''https://x.com''\<rparr>]
   \<and> getStoredLinks_sidebar (storage (deleteLink 0 session_start)) = []"
proof -
  have n: "storage session_start STORAGE_KEY = None"
    by (simp add: session_start_def)
  show ?thesis
    using n getStoredLinks_missing_key [OF n, of "\<lparr>title = ''A'', url = ''https://x.com''\<rparr>" 0 True]
    by simp
qed

lemma isDuplicate_Bex: "isDuplicate L u \<longleftrightarrow> (\<exists>e\<in>set L. url e = u)"
  by (simp add: isDuplicate_def list_ex_iff)

lemma saveLink_duplicate:
  "isDuplicate (getStoredLinks (storage w)) (url x) \<Longrightarrow> saveLink x w = w"
  by (simp add: saveLink_def)

lemma saveLink_fresh:
  "\<not> isDuplicate (getStoredLinks (storage w)) (url x) \<Longrightarrow>
     getStoredLinks (storage (saveLink x w)) = getStoredLinks (storage w) @ [x]"
  by (simp add: saveLink_def getStoredLinks_def)

lemma saveLink_then_duplicate:
  "isDuplicate (getStoredLinks (storage (saveLink x w))) (url x)"
proof (cases "isDuplicate (getStoredLinks (storage w)) (url x)")
  case True
  then show ?thesis by (simp add: saveLink_duplicate)
next
  case False
  then show ?thesis by (simp add: saveLink_fresh isDuplicate_Bex)
qed

lemma filter_url_fresh:
  "\<not> isDuplicate L (url x) \<Longrightarrow> filter (\<lambda>e. url e = url x) (L @ [x]) = [x]"
  by (auto simp: isDuplicate_def list_ex_iff filter_empty_conv)

text \<open>
  Claim C4. With \<open>L\<close> the stored list: when some entry of \<open>L\<close> has the url of \<open>x\<close>
  (equality of the strings), \<open>saveLink x\<close> changes nothing; otherwise the stored list
  becomes \<open>L\<close> with \<open>x\<close> appended. Hence a second save of the same url, whatever its
  title, is a no-op, and when the url was new the list then holds exactly one entry for it:
  \<open>x\<close> itself, with the title of the first save.
\<close>

theorem saveLink_dedup:
  "((\<exists>e\<in>set (getStoredLinks (storage w)). url e = url x) \<longrightarrow> saveLink x w = w)
   \<and> (\<not> (\<exists>e\<in>set (getStoredLinks (storage w)). url e = url x) \<longrightarrow>
        getStoredLinks (storage (saveLink x w)) = getStoredLinks (storage w) @ [x])
   \<and> (url y = url x \<longrightarrow> saveLink y (saveLink x w) = saveLink x w)
   \<and> (url y = url x \<and> \<not> (\<exists>e\<in>set (getStoredLinks (storage w)). url e = url x) \<longrightarrow>
        filter (\<lambda>e. url e = url x) (getStoredLinks (storage (saveLink y (saveLink x w)))) = [x])"
  unfolding isDuplicate_Bex [symmetric]
proof (intro conjI impI)
  assume "isDuplicate (getStoredLinks (storage w)) (url x)"
  then show "saveLink x w = w" by (rule saveLink_duplicate)
next
  assume "\<not> isDuplicate (getStoredLinks (storage w)) (url x)"
  then show "getStoredLinks (storage (saveLink x w)) = getStoredLinks (storage w) @ [x]"
    by (rule saveLink_fresh)
next
  assume "url y = url x"
  then show "saveLink y (saveLink x w) = saveLink x w"
    using saveLink_then_duplicate [of x w] by (simp add: saveLink_duplicate)
next
  assume a: "url y = url x \<and> \<not> isDuplicate (getStoredLinks (storage w)) (url x)"
  then have "saveLink y (saveLink x w) = saveLink x w"
    using saveLink_then_duplicate [of x w] by (simp add: saveLink_duplicate)
  with a show "filter (\<lambda>e. url e = url x) (getStoredLinks (storage (saveLink y (saveLink x w)))) = [x]"
    using filter_url_fresh [of "getStoredLinks (storage w)" x] by (simp add: saveLink_fresh)
qed

theorem saveLink_dedup_witness:
  "saveLink \<lparr>title = ''Again'', url = ''https://x.com''\<rparr> two_links = two_links
   \<and> getStoredLinks (storage (saveLink \<lparr>title = ''Z'', url = ''https://z.com''\<rparr> two_links))
       = getStoredLinks (storage two_links) @ [\<lparr>title = ''Z'', url = ''https://z.com''\<rparr>]
   \<and> filter (\<lambda>e. url e = ''https://z.com'')
        (getStoredLinks (storage (saveLink \<lparr>title = ''Other'', url = ''https://z.com''\<rparr>
           (saveLink \<lparr>title = ''Z'', url = ''https://z.com''\<rparr> two_links))))
       = [\<lparr>title = ''Z'', url = ''https://z.com''\<rparr>]"
  using
    saveLink_dedup [of two_links "\<lparr>title = ''Again'', url = ''https://x.com''\<rparr>" undefined]
    saveLink_dedup [of two_links "\<lparr>title = ''Z'', url = ''https://z.com''\<rparr>"
      "\<lparr>title = ''Other'', url = ''https://z.com''\<rparr>"]
  by (simp add: two_links_def getStoredLinks_def)

lemma splice1_inside:
  assumes "0 \<le> i" "i < int (length xs)"
  shows "splice1 xs i = take (nat i) xs @ drop (Suc (nat i)) xs"
proof -
  have "nat (i + 1) = Suc (nat i)" using assms by simp
  with assms show ?thesis by (simp add: splice1_def Let_def min_def)
qed

lemma splice1_beyond:
  assumes "int (length xs) \<le> i"
  shows "splice1 xs i = xs"
proof -
  have "\<not> i < 0" using assms by linarith
  with assms show ?thesis by (simp add: splice1_def Let_def min_def)
qed

lemma splice1_from_end:
  assumes "i < 0" "- int (length xs) \<le> i"
  shows "splice1 xs i =
    take (nat (int (length xs) + i)) xs @ drop (Suc (nat (int (length xs) + i))) xs"
proof -
  have "nat (int (length xs) + i + 1) = Suc (nat (int (length xs) + i))" using assms by simp
  with assms show ?thesis by (simp add: splice1_def Let_def min_def max_def)
qed

lemma splice1_below:
  assumes "i < - int (length xs)"
  shows "splice1 xs i = drop 1 xs"
proof (cases xs)
  case Nil
  then show ?thesis by (simp add: splice1_def Let_def)
next
  case (Cons x ys)
  with assms show ?thesis by (simp add: splice1_def Let_def min_def max_def)
qed

lemma stored_after_delete:
  "getStoredLinks_sidebar (storage (deleteLink i w)) =
     splice1 (getStoredLinks_sidebar (storage w)) i"
  by (simp add: deleteLink_def getStoredLinks_sidebar_def Let_def)

text \<open>
  Claim C3, as the code has it. With \<open>L\<close> the stored list and \<open>n\<close> its length,
  \<open>deleteLink i\<close> leaves: \<open>L\<close> without its element at position \<open>i\<close>, the rest in
  order, when \<open>0 \<le> i < n\<close>; \<open>L\<close> itself when \<open>i \<ge> n\<close>; and for a negative \<open>i\<close>,
  which counts from the end, \<open>L\<close> without its element at position \<open>n + i\<close> when
  \<open>- n \<le> i\<close>, and \<open>L\<close> without its first element below that.
\<close>

theorem deleteLink_splice:
  "getStoredLinks_sidebar (storage (deleteLink i w)) =
     (let L = getStoredLinks_sidebar (storage w); n = int (length L) in
      if 0 \<le> i \<and> i < n then take (nat i) L @ drop (Suc (nat i)) L
      else if n \<le> i then L
      else if - n \<le> i then take (nat (n + i)) L @ drop (Suc (nat (n + i))) L
      else drop 1 L)"
proof -
  let ?L = "getStoredLinks_sidebar (storage w)"
  consider "0 \<le> i \<and> i < int (length ?L)" | "int (length ?L) \<le> i"
    | "i < 0 \<and> - int (length ?L) \<le> i" | "i < - int (length ?L)"
    by linarith
  then show ?thesis
  proof cases
    case 1
    then show ?thesis by (simp add: stored_after_delete splice1_inside Let_def)
  next
    case 2
    then have "\<not> i < int (length ?L)" by linarith
    with 2 show ?thesis by (simp add: stored_after_delete splice1_beyond Let_def)
  next
    case 3
    then have "\<not> 0 \<le> i" "\<not> int (length ?L) \<le> i" by linarith+
    with 3 show ?thesis by (simp add: stored_after_delete splice1_from_end Let_def)
  next
    case 4
    then have "\<not> 0 \<le> i" "\<not> int (length ?L) \<le> i" "\<not> - int (length ?L) \<le> i"
      by linarith+
    with 4 show ?thesis by (simp add: stored_after_delete splice1_below Let_def)
  qed
qed

theorem deleteLink_splice_witness:
  "getStoredLinks_sidebar (storage (deleteLink 0 two_links)) =
     [\<lparr>title = ''B'', url = ''https://y.com''\<rparr>]
   \<and> getStoredLinks_sidebar (storage (deleteLink 99 two_links)) =
     getStoredLinks_sidebar (storage two_links)
   \<and> getStoredLinks_sidebar (storage (deleteLink (- 2) two_links)) =
     [\<lparr>title = ''B'', url = ''https://y.com''\<rparr>]
   \<and> getStoredLinks_sidebar (storage (deleteLink (- 99) two_links)) =
     [\<lparr>title = ''B'', url = ''https://y.com''\<rparr>]"
  using deleteLink_splice [of 0 two_links] deleteLink_splice [of 99 two_links]
    deleteLink_splice [of "- 2" two_links] deleteLink_splice [of "- 99" two_links]
  by (simp add: two_links_def getStoredLinks_sidebar_def)

text \<open>
  The claim as written fails for a negative index: \<^verbatim>\<open>deleteLink(-1)\<close> on the list
  of two links removes the last one.
\<close>

theorem deleteLink_negative_counterexample:
  "getStoredLinks_sidebar (storage two_links) =
     [\<lparr>title = ''A'', url = ''https://x.com''\<rparr>, \<lparr>title = ''B'', url = ''https://y.com''\<rparr>]
   \<and> getStoredLinks_sidebar (storage (deleteLink (- 1) two_links)) =
     [\<lparr>title = ''A'', url = ''https://x.com''\<rparr>]"
  by (simp add: deleteLink_def splice1_def two_links_def getStoredLinks_sidebar_def Let_def)

section \<open>Properties: extractor\<close>

lemma dropWhile_all: "(\<forall>c\<in>set (dropWhile P s). P c) \<longleftrightarrow> (\<forall>c\<in>set s. P c)"
  by (induction s) auto

lemma trim_empty_iff: "trim s = [] \<longleftrightarrow> (\<forall>c\<in>set s. is_ws c)"
  by (simp add: trim_def dropWhile_eq_Nil_conv dropWhile_all)

lemma trim_no_outer_ws:
  assumes "s \<noteq> []" "\<not> is_ws (hd s)" "\<not> is_ws (last s)"
  shows "trim s = s"
proof -
  have 1: "dropWhile is_ws s = s" using assms by (simp add: dropWhile_eq_self_iff)
  have 2: "dropWhile is_ws (rev s) = rev s" using assms by (simp add: dropWhile_eq_self_iff hd_rev)
  show ?thesis by (simp add: trim_def 1 2)
qed

lemma makeResult_title:
  "title (makeResult B t u) =
     (case t of None \<Rightarrow> getDomain B u
      | Some s \<Rightarrow> if trim s \<noteq> [] then trim s else getDomain B u)"
  by (simp add: makeResult_def truthy_def split: option.splits)

lemma getDomain_www:
  "URL_new B u = Some p \<Longrightarrow> hostname p = ''www.'' @ r \<Longrightarrow> getDomain B u = r"
  by (simp add: getDomain_def strip_www_def)

lemma strip_www_other: "\<not> prefix ''www.'' h \<Longrightarrow> strip_www h = h"
proof -
  assume n: "\<not> prefix ''www.'' h"
  have "take 4 h \<noteq> ''www.''"
  proof
    assume "take 4 h = ''www.''"
    then have "prefix ''www.'' h" using take_is_prefix [of 4 h] by (simp only:)
    with n show False ..
  qed
  then show ?thesis unfolding strip_www_def by (simp only: if_False)
qed

lemma getDomain_other:
  "URL_new B u = Some p \<Longrightarrow> \<not> prefix ''www.'' (hostname p) \<Longrightarrow> getDomain B u = hostname p"
  by (simp add: getDomain_def strip_www_other)


lemma trim_outer:
  assumes "trim x \<noteq> []"
  shows "\<not> is_ws (hd (trim x))" "\<not> is_ws (last (trim x))"
proof -
  let ?d = "dropWhile is_ws x"
  let ?e = "dropWhile is_ws (rev ?d)"
  from assms have e: "?e \<noteq> []" by (simp add: trim_def)
  have d: "?d \<noteq> []"
  proof
    assume "?d = []"
    then have "?e = []" by (simp only: rev.simps dropWhile.simps)
    with e show False ..
  qed
  from e have "\<not> is_ws (hd ?e)" by (rule hd_dropWhile)
  with e show "\<not> is_ws (last (trim x))" by (simp add: trim_def last_rev)
  have "last ?e = last (rev ?d)"
    by (metis append_Nil2 e last_appendR takeWhile_dropWhile_id)
  also have "\<dots> = hd ?d" using d by (simp add: last_rev)
  finally have "last ?e = hd ?d" .
  moreover have "\<not> is_ws (hd ?d)" using d by (rule hd_dropWhile)
  ultimately show "\<not> is_ws (hd (trim x))" using e by (simp add: trim_def hd_rev)
qed

lemma trim_idem: "trim (trim x) = trim x"
proof (cases "trim x = []")
  case True
  have "trim [] = []" by (simp add: trim_def)
  with True show ?thesis by (simp only:)
next
  case False
  with trim_outer [OF False] show ?thesis by (simp add: trim_no_outer_ws)
qed

lemma first_text_trimmed: "first_text as = Some c \<Longrightarrow> \<exists>x. c = trim x"
  by (induction as) (auto simp: Let_def split: if_splits)

lemma path_link_candidate:
  assumes "path_link B pg v = Inr (Some l)"
  shows "\<exists>t. l = makeResult B t v \<and> (t = None \<or> (\<exists>x. t = Some (trim x)))"
proof -
  from assms obtain links where q: "querySelectorAll_href B pg v = Inr links"
    by (auto simp: path_link_def split: sum.splits)
  show ?thesis
  proof (cases "first_text links")
    case None
    with q assms show ?thesis by (auto simp: path_link_def)
  next
    case (Some c)
    with first_text_trimmed obtain x where "c = trim x" by blast
    with Some q assms show ?thesis by (auto simp: path_link_def)
  qed
qed

lemma try_url_text_candidate:
  "try_url_text B x = Some (Inr (Some l)) \<Longrightarrow> l = makeResult B None x"
  by (auto simp: try_url_text_def split: option.splits if_splits)

lemma path_shortcut_candidate:
  assumes "path_shortcut B pg = Some (Inr (Some l))"
  shows "\<exists>t u. l = makeResult B t u \<and> (t = None \<or> (\<exists>x. t = Some (trim x)))"
proof (cases "case find hover (anchors pg) of None \<Rightarrow> None
         | Some hovered \<Rightarrow> if href hovered \<noteq> [] then Some hovered else None")
  case None
  with assms have "\<exists>x. try_url_text B x = Some (Inr (Some l))"
    by (auto simp: path_shortcut_def split: option.splits)
  then show ?thesis using try_url_text_candidate by blast
next
  case (Some a)
  with assms have "l = makeResult B (Some (trim (textContent a))) (href a)"
    by (simp add: path_shortcut_def)
  then show ?thesis by blast
qed

lemma findLinkOnPage_candidate:
  assumes "findLinkOnPage B pg i = Inr (Some l)"
  shows "\<exists>t. l = makeResult B t (url l) \<and> (t = None \<or> (\<exists>x. t = Some (trim x)))"
proof -
  have "\<exists>t u. l = makeResult B t u \<and> (t = None \<or> (\<exists>x. t = Some (trim x)))"
  proof (cases "truthy (Option.bind i linkUrl)")
    case (Some v)
    with assms have "path_link B pg v = Inr (Some l)" by (simp add: findLinkOnPage_def)
    from path_link_candidate [OF this] show ?thesis by blast
  next
    case None
    show ?thesis
    proof (cases "case truthy (Option.bind i selectionText) of
                     Some s \<Rightarrow> try_url_text B (trim s) | None \<Rightarrow> None")
      case (Some r)
      with None assms have "r = Inr (Some l)" by (simp add: findLinkOnPage_def)
      with Some have "\<exists>x. try_url_text B x = Some (Inr (Some l))"
        by (auto split: option.splits)
      then show ?thesis using try_url_text_candidate by blast
    next
      case n2: None
      with None assms have "path_shortcut B pg = Some (Inr (Some l))"
        by (auto simp: findLinkOnPage_def split: option.splits if_splits)
      then show ?thesis by (rule path_shortcut_candidate)
    qed
  qed
  then obtain t u where l: "l = makeResult B t u" and t: "t = None \<or> (\<exists>x. t = Some (trim x))"
    by blast
  from l have ul: "url l = u" by (simp add: makeResult_def)
  show ?thesis unfolding ul by (intro exI [of _ t] conjI) (rule l, rule t)
qed

text \<open>
  Claim C8. The extractor builds every link it returns with \<open>makeResult\<close>, from a
  candidate title that is missing or a trimmed text. On such a candidate the title is the
  candidate when it is not empty after trimming, and the domain-derived title otherwise.
  In general \<open>makeResult\<close> keeps the url, and its title is the candidate with the white
  space at both ends removed when that is not empty, so a candidate without white space at
  its ends is kept as it is; a missing candidate and one made of white space only give the
  domain-derived title. That is \<^verbatim>\<open>"Link"\<close> when the url does not parse; otherwise
  the hostname, without its first four characters when it starts with \<^verbatim>\<open>"www."\<close>.
\<close>

theorem makeResult_clean_title:
  "url (makeResult B t u) = u
   \<and> (findLinkOnPage B pg i = Inr (Some l) \<longrightarrow>
        (\<exists>c. l = makeResult B c (url l) \<and> (c = None \<or> (\<exists>x. c = Some (trim x)))))
   \<and> (t = None \<or> t = Some (trim x) \<longrightarrow>
        title (makeResult B t u) =
          (case t of None \<Rightarrow> getDomain B u
           | Some c \<Rightarrow> if trim c \<noteq> [] then c else getDomain B u))
   \<and> (t = Some s \<and> trim s \<noteq> [] \<longrightarrow> title (makeResult B t u) = trim s)
   \<and> (t = Some s \<and> s \<noteq> [] \<and> \<not> is_ws (hd s) \<and> \<not> is_ws (last s) \<longrightarrow>
        title (makeResult B t u) = s)
   \<and> (t = None \<or> (t = Some s \<and> (\<forall>c\<in>set s. is_ws c)) \<longrightarrow>
        title (makeResult B t u) = getDomain B u)
   \<and> (URL_new B u = None \<longrightarrow> getDomain B u = ''Link'')
   \<and> (URL_new B u = Some p \<and> hostname p = ''www.'' @ r \<longrightarrow> getDomain B u = r)
   \<and> (URL_new B u = Some p \<and> \<not> prefix ''www.'' (hostname p) \<longrightarrow> getDomain B u = hostname p)"
proof (intro conjI impI)
  show "url (makeResult B t u) = u" by (simp add: makeResult_def)
next
  assume "findLinkOnPage B pg i = Inr (Some l)"
  then show "\<exists>c. l = makeResult B c (url l) \<and> (c = None \<or> (\<exists>x. c = Some (trim x)))"
    by (rule findLinkOnPage_candidate)
next
  assume "t = None \<or> t = Some (trim x)"
  then show "title (makeResult B t u) =
          (case t of None \<Rightarrow> getDomain B u
           | Some c \<Rightarrow> if trim c \<noteq> [] then c else getDomain B u)"
    by (auto simp: makeResult_title trim_idem)
next
  assume "t = Some s \<and> trim s \<noteq> []"
  then show "title (makeResult B t u) = trim s" by (simp add: makeResult_title)
next
  assume a: "t = Some s \<and> s \<noteq> [] \<and> \<not> is_ws (hd s) \<and> \<not> is_ws (last s)"
  then have "trim s = s" by (simp add: trim_no_outer_ws)
  with a show "title (makeResult B t u) = s" by (simp add: makeResult_title)
next
  assume "t = None \<or> (t = Some s \<and> (\<forall>c\<in>set s. is_ws c))"
  then show "title (makeResult B t u) = getDomain B u"
    by (auto simp: makeResult_title trim_empty_iff)
next
  assume "URL_new B u = None"
  then show "getDomain B u = ''Link''" by (simp add: getDomain_def)
next
  assume "URL_new B u = Some p \<and> hostname p = ''www.'' @ r"
  then show "getDomain B u = r" by (simp add: getDomain_www)
next
  assume "URL_new B u = Some p \<and> \<not> prefix ''www.'' (hostname p)"
  then show "getDomain B u = hostname p" by (simp add: getDomain_other)
qed

theorem makeResult_clean_title_witness:
  "title (makeResult example_browser (Some ''  Hello  '') ''https://x.com'') = ''Hello''
   \<and> title (makeResult example_browser (Some (trim ''  Hello  '')) ''https://x.com'') = ''Hello''
   \<and> title (makeResult example_browser (Some ''Hello'') ''https://x.com'') = ''Hello''
   \<and> title (makeResult example_browser (Some ''  '') ''https://www.example.com/page'') = ''example.com''
   \<and> makeResult example_browser None ''hello world'' = \<lparr>title = ''Link'', url = ''hello world''\<rparr>
   \<and> getDomain example_browser ''https://x.com'' = ''x.com''
   \<and> findLinkOnPage example_browser mail_page (LinkClick ''mailto:ann@example.com'')
       = Inr (Some \<lparr>title = ''Write to Ann'', url = ''mailto:ann@example.com''\<rparr>)"
  using
    makeResult_clean_title [where B = example_browser and t = "Some ''  Hello  ''"
      and u = "''https://x.com''" and s = "''  Hello  ''" and x = "[]"
      and p = "\<lparr>protocol = ''https:'', hostname = ''x.com''\<rparr>" and r = "[]"
      and pg = mail_page and i = "LinkClick ''mailto:ann@example.com''"
      and l = "\<lparr>title = ''Write to Ann'', url = ''mailto:ann@example.com''\<rparr>"]
    makeResult_clean_title [where B = example_browser and t = "Some (trim ''  Hello  '')"
      and u = "''https://x.com''" and s = "''Hello''" and x = "''  Hello  ''"
      and p = "\<lparr>protocol = ''https:'', hostname = ''x.com''\<rparr>" and r = "[]"
      and pg = mail_page and i = "LinkClick ''mailto:ann@example.com''"
      and l = "\<lparr>title = ''Write to Ann'', url = ''mailto:ann@example.com''\<rparr>"]
    makeResult_clean_title [where B = example_browser and t = "Some ''  ''"
      and u = "''https://www.example.com/page''" and s = "''  ''" and x = "[]"
      and p = "\<lparr>protocol = ''https:'', hostname = ''www.example.com''\<rparr>"
      and r = "''example.com''"
      and pg = mail_page and i = "LinkClick ''mailto:ann@example.com''"
      and l = "\<lparr>title = ''Write to Ann'', url = ''mailto:ann@example.com''\<rparr>"]
    makeResult_clean_title [where B = example_browser and t = None
      and u = "''hello world''" and s = "[]" and x = "[]"
      and p = "\<lparr>protocol = [], hostname = []\<rparr>" and r = "[]"
      and pg = mail_page and i = "LinkClick ''mailto:ann@example.com''"
      and l = "\<lparr>title = ''Write to Ann'', url = ''mailto:ann@example.com''\<rparr>"]
  by (simp add: example_browser_def example_URL_def trim_def is_ws_def makeResult_def truthy_def
      getDomain_def strip_www_def findLinkOnPage_def path_link_def querySelectorAll_href_def
      css_plain_def LinkClick_def mail_page_def)

lemma makeResult_None: "makeResult B None u = \<lparr>title = getDomain B u, url = u\<rparr>"
  by (simp add: makeResult_def truthy_def)

lemma try_url_text_cases:
  "try_url_text B x =
     (if http_url B x then Some (Inr (Some \<lparr>title = getDomain B x, url = x\<rparr>))
      else if URL_new B x = None then Some (Inr None) else None)"
  by (simp add: try_url_text_def http_url_def makeResult_None split: option.splits)

lemma findLinkOnPage_SelectionClick:
  "findLinkOnPage B pg (SelectionClick s) =
     (if s \<noteq> [] \<and> http_url B (trim s) then Inr (Some \<lparr>title = getDomain B (trim s), url = trim s\<rparr>)
      else Inr None)"
  by (simp add: findLinkOnPage_def SelectionClick_def truthy_def try_url_text_cases)

lemma http_url_empty: "URL_new B [] = None \<Longrightarrow> \<not> http_url B []"
  by (simp add: http_url_def)

lemma trim_Nil: "trim [] = []"
  by (simp add: trim_def)

lemma handleLinkCapture_no_result:
  assumes "findLinkOnPage B (document tb) i = Inr None
           \<or> (\<exists>l. findLinkOnPage B (document tb) i = Inr (Some l) \<and> url l = [])"
  shows "\<exists>w'. handleLinkCapture B (Some tb) i w = Inr w' \<and> storage w' = storage w"
  using assms
  by (auto simp: handleLinkCapture_def Let_def split: option.splits)

text \<open>
  Claim C5. Given that the browser's parser rejects the empty string: on a context-menu
  click on selected text the extractor returns the trimmed selection as url, with the
  domain-derived title, when the trimmed text parses with protocol http or https; in every
  other case (the text does not parse, or parses with another protocol) it returns no
  result, and the capture then leaves the storage as it was.
\<close>

theorem selection_click:
  assumes "URL_new B [] = None"
  shows "findLinkOnPage B pg (SelectionClick s) =
           (if http_url B (trim s) then Inr (Some \<lparr>title = getDomain B (trim s), url = trim s\<rparr>)
            else Inr None)
         \<and> (\<not> http_url B (trim s) \<longrightarrow>
              (\<exists>w'. handleLinkCapture B (Some tb) (SelectionClick s) w = Inr w'
                    \<and> storage w' = storage w))"
proof (intro conjI impI)
  show "findLinkOnPage B pg (SelectionClick s) =
           (if http_url B (trim s) then Inr (Some \<lparr>title = getDomain B (trim s), url = trim s\<rparr>)
            else Inr None)"
    using http_url_empty [OF assms]
    by (cases "s = []") (simp_all add: findLinkOnPage_SelectionClick trim_Nil)
next
  assume "\<not> http_url B (trim s)"
  then have "findLinkOnPage B (document tb) (SelectionClick s) = Inr None"
    by (simp add: findLinkOnPage_SelectionClick)
  then show "\<exists>w'. handleLinkCapture B (Some tb) (SelectionClick s) w = Inr w' \<and> storage w' = storage w"
    by (simp add: handleLinkCapture_no_result)
qed


theorem selection_click_witness:
  "URL_new example_browser [] = None
   \<and> findLinkOnPage example_browser relative_page (SelectionClick '' https://www.example.com/page '')
       = Inr (Some \<lparr>title = ''example.com'', url = ''https://www.example.com/page''\<rparr>)
   \<and> findLinkOnPage example_browser relative_page (SelectionClick ''hello world'') = Inr None
   \<and> findLinkOnPage example_browser relative_page (SelectionClick ''ftp://files.example.com/a.txt'')
       = Inr None
   \<and> (\<exists>w'. handleLinkCapture example_browser (Some (selection_tab ''hello world''))
              (SelectionClick ''hello world'') two_links = Inr w'
          \<and> storage w' = storage two_links)"
proof -
  have e: "URL_new example_browser [] = None"
    by (simp add: example_browser_def example_URL_def)
  show ?thesis
    using e
      selection_click [OF e, of relative_page "'' https://www.example.com/page ''"
        "selection_tab ''hello world''" two_links]
      selection_click [OF e, of relative_page "''ftp://files.example.com/a.txt''"
        "selection_tab ''hello world''" two_links]
      selection_click [OF e, of relative_page "''hello world''"
        "selection_tab ''hello world''" two_links]
    by (simp add: http_url_def example_browser_def example_URL_def trim_def is_ws_def
        getDomain_def strip_www_def)
qed

section \<open>Properties: coordinator\<close>

lemma matches_http_prefix: "matches_http u \<longleftrightarrow> prefix ''http://'' u \<or> prefix ''https://'' u"
proof -
  have a: "take 7 u = ''http://'' \<longleftrightarrow> prefix ''http://'' u"
  proof
    assume "take 7 u = ''http://''"
    then show "prefix ''http://'' u" using take_is_prefix [of 7 u] by (simp only:)
  next
    assume "prefix ''http://'' u"
    then obtain r where "u = ''http://'' @ r" by (auto simp: prefix_def)
    then show "take 7 u = ''http://''" by simp
  qed
  have b: "take 8 u = ''https://'' \<longleftrightarrow> prefix ''https://'' u"
  proof
    assume "take 8 u = ''https://''"
    then show "prefix ''https://'' u" using take_is_prefix [of 8 u] by (simp only:)
  next
    assume "prefix ''https://'' u"
    then obtain r where "u = ''https://'' @ r" by (auto simp: prefix_def)
    then show "take 8 u = ''https://''" by simp
  qed
  show ?thesis unfolding matches_http_def a b ..
qed

text \<open>
  Claim C6. When the tab's url is missing or starts with neither \<^verbatim>\<open>http://\<close> nor
  \<^verbatim>\<open>https://\<close>, the capture returns normally with the world untouched: no script
  injection, no write to the storage. When the extractor gives no result, or a result
  whose url is empty, the capture returns normally and the storage is as it was.
\<close>

theorem capture_rejected:
  "((tab_url tb = None \<or> (\<exists>u. tab_url tb = Some u \<and> \<not> prefix ''http://'' u \<and> \<not> prefix ''https://'' u))
      \<longrightarrow> handleLinkCapture B (Some tb) i w = Inr w)
   \<and> ((findLinkOnPage B (document tb) i = Inr None
        \<or> (\<exists>l. findLinkOnPage B (document tb) i = Inr (Some l) \<and> url l = []))
      \<longrightarrow> (\<exists>w'. handleLinkCapture B (Some tb) i w = Inr w' \<and> storage w' = storage w))"
proof (intro conjI impI)
  assume "tab_url tb = None \<or> (\<exists>u. tab_url tb = Some u \<and> \<not> prefix ''http://'' u \<and> \<not> prefix ''https://'' u)"
  then show "handleLinkCapture B (Some tb) i w = Inr w"
  proof
    assume "tab_url tb = None"
    then show ?thesis by (simp add: handleLinkCapture_def truthy_def)
  next
    assume "\<exists>u. tab_url tb = Some u \<and> \<not> prefix ''http://'' u \<and> \<not> prefix ''https://'' u"
    then obtain u where u: "tab_url tb = Some u" "\<not> matches_http u"
      by (auto simp: matches_http_prefix)
    then show ?thesis by (simp add: handleLinkCapture_def truthy_def)
  qed
next
  assume "findLinkOnPage B (document tb) i = Inr None
        \<or> (\<exists>l. findLinkOnPage B (document tb) i = Inr (Some l) \<and> url l = [])"
  then show "\<exists>w'. handleLinkCapture B (Some tb) i w = Inr w' \<and> storage w' = storage w"
    by (rule handleLinkCapture_no_result)
qed


theorem capture_rejected_witness:
  "handleLinkCapture example_browser (Some extensions_tab) (LinkClick ''https://x.com'') two_links
     = Inr two_links
   \<and> findLinkOnPage example_browser (document (selection_tab ''hello world'')) ShortcutTrigger
     = Inr None
   \<and> (\<exists>w'. handleLinkCapture example_browser (Some (selection_tab ''hello world'')) ShortcutTrigger
              two_links = Inr w'
          \<and> storage w' = storage two_links)"
proof -
  have n: "findLinkOnPage example_browser (document (selection_tab ''hello world'')) ShortcutTrigger
     = Inr None"
    by (simp add: findLinkOnPage_def ShortcutTrigger_def selection_tab_def path_shortcut_def
        truthy_def trim_def is_ws_def try_url_text_def example_browser_def example_URL_def)
  show ?thesis
    using n
      capture_rejected [of extensions_tab example_browser "LinkClick ''https://x.com''" two_links]
      capture_rejected [of "selection_tab ''hello world''" example_browser ShortcutTrigger two_links]
    by (simp add: extensions_tab_def)
qed

section \<open>Properties: what reaches the store\<close>

lemma path_link_url: "path_link B pg v = Inr (Some l) \<Longrightarrow> url l = v"
  by (auto simp: path_link_def makeResult_def split: sum.splits option.splits)

lemma try_url_text_url: "try_url_text B x = Some (Inr (Some l)) \<Longrightarrow> url l = x \<and> http_url B x"
  by (auto simp: try_url_text_cases split: if_splits)

lemma path_shortcut_hovered:
  assumes "hovered_href pg = Some v"
  shows "\<exists>l. path_shortcut B pg = Some (Inr (Some l)) \<and> url l = v"
proof (cases "find hover (anchors pg)")
  case None
  with assms show ?thesis by (simp add: hovered_href_def)
next
  case (Some a)
  with assms have "href a \<noteq> []" "href a = v"
    by (auto simp: hovered_href_def truthy_def split: if_splits)
  with Some show ?thesis by (simp add: path_shortcut_def makeResult_def)
qed

lemma path_shortcut_selection:
  assumes "hovered_href pg = None" "path_shortcut B pg = Some (Inr (Some l))"
  shows "http_url B (url l)"
proof -
  have "(case find hover (anchors pg) of None \<Rightarrow> None
         | Some hovered \<Rightarrow> if href hovered \<noteq> [] then Some hovered else None) = None"
    using assms(1) by (auto simp: hovered_href_def truthy_def split: option.splits if_splits)
  with assms(2) have "\<exists>x. try_url_text B x = Some (Inr (Some l))"
    by (auto simp: path_shortcut_def split: option.splits)
  then show ?thesis using try_url_text_url by blast
qed

lemma findLinkOnPage_url_source:
  assumes "findLinkOnPage B pg i = Inr (Some l)"
  shows "case anchor_url pg i of Some v \<Rightarrow> url l = v | None \<Rightarrow> http_url B (url l)"
proof (cases "truthy (Option.bind i linkUrl)")
  case (Some v)
  with assms have "url l = v" by (simp add: findLinkOnPage_def path_link_url)
  with Some show ?thesis by (simp add: anchor_url_def)
next
  case None
  show ?thesis
  proof (cases "case truthy (Option.bind i selectionText) of
                   Some s \<Rightarrow> try_url_text B (trim s) | None \<Rightarrow> None")
    case (Some r)
    with None assms have "r = Inr (Some l)" by (simp add: findLinkOnPage_def)
    with Some have "\<exists>x. try_url_text B x = Some (Inr (Some l))"
      by (auto split: option.splits)
    then have "http_url B (url l)" using try_url_text_url by blast
    moreover from Some have "i \<noteq> None" by (cases i) (auto simp: truthy_def)
    ultimately show ?thesis using None by (auto simp: anchor_url_def)
  next
    case n2: None
    show ?thesis
    proof (cases i)
      case None
      with \<open>truthy (Option.bind i linkUrl) = None\<close> n2 assms
      have p: "path_shortcut B pg = Some (Inr (Some l))"
        by (auto simp: findLinkOnPage_def split: option.splits)
      show ?thesis
      proof (cases "hovered_href pg")
        case h: None
        from path_shortcut_selection [OF h p] h None show ?thesis
          by (simp add: anchor_url_def truthy_def)
      next
        case (Some v)
        from path_shortcut_hovered [OF Some, of B] p have "url l = v" by auto
        with Some None show ?thesis by (simp add: anchor_url_def truthy_def)
      qed
    next
      case (Some click)
      with \<open>truthy (Option.bind i linkUrl) = None\<close> n2 assms show ?thesis
        by (simp add: findLinkOnPage_def)
    qed
  qed
qed

lemma stored_after_saveLink:
  "set (getStoredLinks (storage (saveLink l w))) \<subseteq> insert l (set (getStoredLinks (storage w)))"
  by (cases "isDuplicate (getStoredLinks (storage w)) (url l)")
    (auto simp: saveLink_duplicate saveLink_fresh)

lemma storage_saveLink_accessed:
  "storage (saveLink l (w\<lparr>page_accesses := n\<rparr>)) = storage (saveLink l w)"
  by (simp add: saveLink_def Let_def)

lemma capture_step_storage:
  "storage (capture_step B w c) =
     (case capture_result B c of None \<Rightarrow> storage w | Some l \<Rightarrow> storage (saveLink l w))"
proof (cases "fst c")
  case None
  then show ?thesis by (simp add: capture_step_def handleLinkCapture_def capture_result_def)
next
  case (Some tb)
  show ?thesis
  proof (cases "truthy (tab_url tb)")
    case None
    with Some show ?thesis
      by (simp add: capture_step_def handleLinkCapture_def capture_result_def)
  next
    case u: (Some u)
    show ?thesis
    proof (cases "matches_http u \<and> scriptable tb")
      case False
      with Some u show ?thesis
        by (auto simp: capture_step_def handleLinkCapture_def capture_result_def Let_def)
    next
      case True
      with Some u show ?thesis
        by (simp add: capture_step_def handleLinkCapture_def capture_result_def Let_def
            storage_saveLink_accessed split: sum.splits option.splits)
    qed
  qed
qed

lemma capture_step_stored:
  assumes "x \<in> set (getStoredLinks (storage (capture_step B w c)))"
  shows "x \<in> set (getStoredLinks (storage w)) \<or> capture_result B c = Some x"
proof (cases "capture_result B c")
  case None
  with assms show ?thesis by (simp add: capture_step_storage)
next
  case (Some l)
  with assms have "x \<in> set (getStoredLinks (storage (saveLink l w)))"
    by (simp add: capture_step_storage)
  with stored_after_saveLink [of l w] have "x = l \<or> x \<in> set (getStoredLinks (storage w))"
    by auto
  with Some show ?thesis by auto
qed

lemma run_captures_stored:
  assumes "x \<in> set (getStoredLinks (storage (run_captures B cs w)))"
  shows "x \<in> set (getStoredLinks (storage w)) \<or> (\<exists>c\<in>set cs. capture_result B c = Some x)"
  using assms
proof (induction cs arbitrary: w)
  case Nil
  then show ?case by (simp add: run_captures_def)
next
  case (Cons c cs)
  then have "x \<in> set (getStoredLinks (storage (run_captures B cs (capture_step B w c))))"
    by (simp add: run_captures_def)
  from Cons.IH [OF this] capture_step_stored [of x B w c] show ?case by auto
qed

lemma capture_result_source:
  assumes "capture_result B c = Some l"
  shows "url l \<noteq> [] \<and>
         (case capture_anchor_url c of Some v \<Rightarrow> url l = v | None \<Rightarrow> http_url B (url l))"
proof -
  from assms obtain tb where tb: "fst c = Some tb"
    by (auto simp: capture_result_def split: option.splits)
  with assms have "url l \<noteq> []" "findLinkOnPage B (document tb) (snd c) = Inr (Some l)"
    by (auto simp: capture_result_def split: option.splits if_splits sum.splits)
  with findLinkOnPage_url_source [of B "document tb" "snd c" l] tb show ?thesis
    by (simp add: capture_anchor_url_def)
qed

lemma anchor_capture_saved:
  assumes "tab_url tb = Some u" "matches_http u" "scriptable tb"
    and "anchor_url (document tb) j = Some v" "j = None \<or> css_plain v"
  shows "\<exists>w'. handleLinkCapture B (Some tb) j w = Inr w'
              \<and> (\<exists>e\<in>set (getStoredLinks (storage w')). url e = v)"
proof -
  let ?w1 = "w\<lparr>page_accesses := Suc (page_accesses w)\<rparr>"
  have v: "v \<noteq> []"
    using assms(4)
    by (auto simp: anchor_url_def hovered_href_def truthy_def split: option.splits if_splits)
  have "\<exists>l. findLinkOnPage B (document tb) j = Inr (Some l) \<and> url l = v"
  proof (cases "truthy (Option.bind j linkUrl)")
    case (Some v')
    with assms(4) have e: "v' = v" by (simp add: anchor_url_def)
    from Some have "j \<noteq> None" by (cases j) (auto simp: truthy_def)
    with assms(5) have "css_plain v" by simp
    then have "\<exists>l. path_link B (document tb) v = Inr (Some l) \<and> url l = v"
      by (cases "first_text (filter (\<lambda>a. href_attr a = Some v) (anchors (document tb)))")
        (simp_all add: path_link_def querySelectorAll_href_def makeResult_def)
    with Some e show ?thesis by (simp add: findLinkOnPage_def)
  next
    case None
    with assms(4) have j: "j = None" and h: "hovered_href (document tb) = Some v"
      by (auto simp: anchor_url_def split: if_splits)
    from path_shortcut_hovered [OF h, of B] j show ?thesis
      by (auto simp: findLinkOnPage_def truthy_def)
  qed
  then obtain l where l: "findLinkOnPage B (document tb) j = Inr (Some l)" and u: "url l = v"
    by blast
  from assms(2) have "u \<noteq> []" by (auto simp: matches_http_def)
  with assms(1,2,3) v l u have "handleLinkCapture B (Some tb) j w = Inr (saveLink l ?w1)"
    by (simp add: handleLinkCapture_def truthy_def Let_def)
  moreover have "\<exists>e\<in>set (getStoredLinks (storage (saveLink l ?w1))). url e = v"
    using saveLink_then_duplicate [of l ?w1] u by (simp add: isDuplicate_Bex)
  ultimately show ?thesis by simp
qed

text \<open>
  Claim C1, as the code has it. After any sequence of captures from the start of a
  session, every stored entry has a url that is not empty and is the result of one of the
  captures; when that capture took its url from an anchor (the clicked link, or the
  anchor under the pointer on the shortcut) the entry's url is that anchor's url, and
  otherwise, the url coming from a text selection, it parses with protocol http or https.
  The same holds of every result of the extractor. The urls of anchors are not checked:
  on a web page that can be scripted, a capture from an anchor (a click on a link whose
  url needs no escaping in the selector, or the shortcut over an anchor) ends with an entry
  for that url in the store, whatever its scheme.
\<close>

theorem stored_urls_invariant:
  "(\<forall>l\<in>set (getStoredLinks (storage (run_captures B cs session_start))).
      url l \<noteq> [] \<and>
      (\<exists>c\<in>set cs. capture_result B c = Some l \<and>
         (case capture_anchor_url c of Some v \<Rightarrow> url l = v | None \<Rightarrow> http_url B (url l))))
   \<and> (findLinkOnPage B pg i = Inr (Some r) \<longrightarrow>
        (case anchor_url pg i of Some v \<Rightarrow> url r = v | None \<Rightarrow> http_url B (url r)))
   \<and> (tab_url tb = Some u \<and> matches_http u \<and> scriptable tb
        \<and> anchor_url (document tb) j = Some v \<and> (j = None \<or> css_plain v) \<longrightarrow>
        (\<exists>w'. handleLinkCapture B (Some tb) j w = Inr w'
              \<and> (\<exists>e\<in>set (getStoredLinks (storage w')). url e = v)))"
proof (intro conjI impI ballI)
  fix l
  assume "l \<in> set (getStoredLinks (storage (run_captures B cs session_start)))"
  from run_captures_stored [OF this]
  obtain c where c: "c \<in> set cs" "capture_result B c = Some l"
    by (auto simp: session_start_def getStoredLinks_def)
  from capture_result_source [OF c(2)] show "url l \<noteq> []" by simp
  from capture_result_source [OF c(2)] c
  show "\<exists>c\<in>set cs. capture_result B c = Some l \<and>
         (case capture_anchor_url c of Some v \<Rightarrow> url l = v | None \<Rightarrow> http_url B (url l))"
    by blast
next
  assume "findLinkOnPage B pg i = Inr (Some r)"
  then show "case anchor_url pg i of Some v \<Rightarrow> url r = v | None \<Rightarrow> http_url B (url r)"
    by (rule findLinkOnPage_url_source)
next
  assume "tab_url tb = Some u \<and> matches_http u \<and> scriptable tb
        \<and> anchor_url (document tb) j = Some v \<and> (j = None \<or> css_plain v)"
  then show "\<exists>w'. handleLinkCapture B (Some tb) j w = Inr w'
              \<and> (\<exists>e\<in>set (getStoredLinks (storage w')). url e = v)"
    by (elim conjE) (rule anchor_capture_saved)
qed

lemmas capture_eval =
  run_captures_def capture_step_def handleLinkCapture_def findLinkOnPage_def path_link_def
  path_shortcut_def try_url_text_def querySelectorAll_href_def css_plain_def makeResult_def
  getDomain_def strip_www_def truthy_def trim_def is_ws_def matches_http_def saveLink_def
  getStoredLinks_def isDuplicate_def session_start_def LinkClick_def SelectionClick_def
  ShortcutTrigger_def example_browser_def example_URL_def Let_def

text \<open>
  The claim as written fails: a right-click on a \<^verbatim>\<open>mailto:\<close> link, or the shortcut
  while the pointer is over it, stores the link.
\<close>

theorem non_http_link_stored_counterexample:
  "getStoredLinks (storage (run_captures example_browser
       [(Some mail_tab, LinkClick ''mailto:ann@example.com'')] session_start))
     = [\<lparr>title = ''Write to Ann'', url = ''mailto:ann@example.com''\<rparr>]
   \<and> getStoredLinks (storage (run_captures example_browser
       [(Some mail_tab, ShortcutTrigger)] session_start))
     = [\<lparr>title = ''Write to Ann'', url = ''mailto:ann@example.com''\<rparr>]
   \<and> \<not> prefix ''http://'' ''mailto:ann@example.com''
   \<and> \<not> prefix ''https://'' ''mailto:ann@example.com''"
  by (simp add: capture_eval mail_tab_def mail_page_def)

theorem stored_urls_invariant_witness:
  "getStoredLinks (storage (run_captures example_browser
       [(Some mail_tab, LinkClick ''mailto:ann@example.com''),
        (Some (selection_tab []), SelectionClick '' https://www.example.com/page ''),
        (Some (selection_tab ''ftp://files.example.com/a.txt''), ShortcutTrigger)] session_start))
     = [\<lparr>title = ''Write to Ann'', url = ''mailto:ann@example.com''\<rparr>,
        \<lparr>title = ''example.com'', url = ''https://www.example.com/page''\<rparr>]
   \<and> capture_result example_browser (Some mail_tab, LinkClick ''mailto:ann@example.com'')
     = Some \<lparr>title = ''Write to Ann'', url = ''mailto:ann@example.com''\<rparr>
   \<and> capture_anchor_url (Some mail_tab, LinkClick ''mailto:ann@example.com'')
     = Some ''mailto:ann@example.com''
   \<and> capture_result example_browser
       (Some (selection_tab []), SelectionClick '' https://www.example.com/page '')
     = Some \<lparr>title = ''example.com'', url = ''https://www.example.com/page''\<rparr>
   \<and> capture_anchor_url (Some (selection_tab []), SelectionClick '' https://www.example.com/page '')
     = None
   \<and> http_url example_browser ''https://www.example.com/page''
   \<and> capture_result example_browser
       (Some (selection_tab ''ftp://files.example.com/a.txt''), ShortcutTrigger) = None
   \<and> (\<exists>w'. handleLinkCapture example_browser (Some mail_tab)
              (LinkClick ''mailto:ann@example.com'') session_start = Inr w'
          \<and> (\<exists>e\<in>set (getStoredLinks (storage w')). url e = ''mailto:ann@example.com''))
   \<and> (\<exists>w'. handleLinkCapture example_browser (Some mail_tab) ShortcutTrigger session_start = Inr w'
          \<and> (\<exists>e\<in>set (getStoredLinks (storage w')). url e = ''mailto:ann@example.com''))"
  using
    stored_urls_invariant [where B = example_browser
      and cs = "[(Some mail_tab, LinkClick ''mailto:ann@example.com''),
        (Some (selection_tab []), SelectionClick '' https://www.example.com/page ''),
        (Some (selection_tab ''ftp://files.example.com/a.txt''), ShortcutTrigger)]"
      and pg = "document mail_tab" and i = "LinkClick ''mailto:ann@example.com''"
      and r = "\<lparr>title = ''Write to Ann'', url = ''mailto:ann@example.com''\<rparr>"
      and tb = mail_tab and u = "''https://example.com/page''"
      and j = "LinkClick ''mailto:ann@example.com''" and v = "''mailto:ann@example.com''"
      and w = session_start]
    stored_urls_invariant [where B = example_browser and cs = "[]"
      and pg = "document (selection_tab [])"
      and i = "SelectionClick '' https://www.example.com/page ''"
      and r = "\<lparr>title = ''example.com'', url = ''https://www.example.com/page''\<rparr>"
      and tb = mail_tab and u = "''https://example.com/page''"
      and j = ShortcutTrigger and v = "''mailto:ann@example.com''"
      and w = session_start]
  by (simp add: capture_eval mail_tab_def mail_page_def selection_tab_def http_url_def
      capture_result_def capture_anchor_url_def anchor_url_def hovered_href_def)

lemma linkclick_quote_throws:
  "findLinkOnPage example_browser relative_page (LinkClick ''javascript:alert(\"x\")'')
     = Inl SyntaxError"
  by (simp add: capture_eval relative_page_def)

text \<open>
  Claim C2 at a page whose anchor has a relative \<^verbatim>\<open>href\<close>. The anchor's resolved
  href is the clicked url and its text is \<^verbatim>\<open>"Hello"\<close>, but the selector compares
  the raw attribute \<^verbatim>\<open>"/page"\<close>, finds no anchor, and the title falls back to the
  domain.
\<close>

theorem linkclick_relative_href:
  "map (\<lambda>a. trim (textContent a))
       (filter (\<lambda>a. href a = ''https://example.com/page'') (anchors relative_page)) = [''Hello'']
   \<and> findLinkOnPage example_browser relative_page (LinkClick ''https://example.com/page'')
     = Inr (Some \<lparr>title = ''example.com'', url = ''https://example.com/page''\<rparr>)"
  by (simp add: capture_eval relative_page_def)

end
